theory Spec2Isabelle
  imports Main "HOL-Library.Signed_Division"
begin

section \<open>Data model\<close>

text \<open>
  A thread is identified by a number. A non-null \<^verbatim>\<open>GLFWwindow*\<close> is a number too, and a
  pointer that may be \<^verbatim>\<open>NULL\<close> is a \<open>window option\<close> (\<open>None\<close> is \<^verbatim>\<open>NULL\<close>).
\<close>

type_synonym thread = nat
type_synonym window = nat

datatype hint = GLFW_CONTEXT_VERSION_MAJOR | GLFW_CONTEXT_VERSION_MINOR | GLFW_VISIBLE

text \<open>
  The elements of \<^verbatim>\<open>thread_queue\<close> are \<^verbatim>\<open>std::function<bool()>*\<close>. The one producer in the
  sources is the lambda of \<^verbatim>\<open>destroy_glfw_window::operator()\<close>, which captures the window
  pointer and returns \<^verbatim>\<open>true\<close>. Any other callable put on the queue is kept opaque: a tag
  and the value it returns; it is taken not to touch the queue or the counter.
\<close>

datatype task = DestroyWindowTask "window option" | OtherTask nat bool

text \<open>The type arguments of \<^verbatim>\<open>per_thread<T>\<close> used by the worker.\<close>

datatype resource = R_glfw_context | R_glfw_window

datatype log_level = Info | Debug | Error

text \<open>
  Every call that leaves the two source files (native library, function loader, registry,
  window utility, logger, user callbacks) is recorded in a trace, in call order.
  \<open>ExecuteQueue\<close> marks an entry into \<^verbatim>\<open>execute_queue\<close>, and \<open>RunCallable n\<close> the invocation
  of the opaque callable \<open>n\<close>.
\<close>

datatype event =
    GlfwDefaultWindowHints
  | GlfwWindowHint hint int
  | GlfwCreateWindow int int "window option"
  | GlfwMakeContextCurrent thread "window option"
  | GlewInit thread
  | GlfwTerminate
  | GlfwDestroyWindow "window option"
  | GlfwPostEmptyEvent
  | GlfwWaitEventsTimeout
  | GlfwWindowShouldClose "window option"
  | GlGetError thread
  | ExecuteQueue
  | RunCallable nat
  | PerThreadSet thread resource
  | PerThreadGetOrCreate thread resource
  | PerThreadRemoveReference thread resource
  | WindowShow thread
  | WindowSwapBuffers thread
  | TempStart thread
  | TempUpdate thread
  | InitTimeUpdate
  | Log log_level string "int option"

datatype error = GLFW_failed_to_initialize | GLEW_failed_to_initialize

text \<open>\<^verbatim>\<open>glfw_context\<close>: the owning pointer to the native window.\<close>

record glfw_context =
  pointer :: "window option"

text \<open>
  The process state the two files act on. \<open>active_contexts\<close> and \<open>thread_queue\<close> are the
  members of the \<^verbatim>\<open>global_glfw_context\<close> singleton; \<open>current_context\<close> and \<open>window_hints\<close>
  are the native library's state that \<^verbatim>\<open>glfwMakeContextCurrent\<close> and \<^verbatim>\<open>glfwWindowHint\<close>
  write; \<open>deleted\<close> lists the callables freed by \<^verbatim>\<open>delete first\<close>; \<open>references\<close> is the
  reference count the registry \<^verbatim>\<open>per_thread<T>\<close> keeps for each thread and resource type.

  Modelled from the spec: the declaration of \<^verbatim>\<open>active_contexts\<close> is in glfw_context.h,
  which is not among the sources; the spec calls it an atomic count of live contexts that
  starts at zero. It is an unbounded integer here.
\<close>

record state =
  active_contexts :: int
  thread_queue :: "task list"
  current_context :: "thread \<Rightarrow> window option"
  window_hints :: "hint \<Rightarrow> int option"
  deleted :: "task list"
  references :: "thread \<times> resource \<Rightarrow> int"
  trace :: "event list"

section \<open>Native calls\<close>

definition emit :: "event \<Rightarrow> state \<Rightarrow> state" where
  "emit e st = st\<lparr>trace := trace st @ [e]\<rparr>"

definition GLFW_FALSE :: int where
  "GLFW_FALSE = 0"

definition GL_NO_ERROR :: int where
  "GL_NO_ERROR = 0"

definition glfwMakeContextCurrent :: "thread \<Rightarrow> window option \<Rightarrow> state \<Rightarrow> state" where
  "glfwMakeContextCurrent t w st =
     emit (GlfwMakeContextCurrent t w) (st\<lparr>current_context := (current_context st)(t := w)\<rparr>)"

definition glfwDefaultWindowHints :: "state \<Rightarrow> state" where
  "glfwDefaultWindowHints st = emit GlfwDefaultWindowHints (st\<lparr>window_hints := (\<lambda>h. None)\<rparr>)"

definition glfwWindowHint :: "hint \<Rightarrow> int \<Rightarrow> state \<Rightarrow> state" where
  "glfwWindowHint h v st = emit (GlfwWindowHint h v) (st\<lparr>window_hints := (window_hints st)(h := Some v)\<rparr>)"

text \<open>The window the native call returns (\<open>None\<close> when creation fails) is an input.\<close>

definition glfwCreateWindow :: "int \<Rightarrow> int \<Rightarrow> window option \<Rightarrow> state \<Rightarrow> state" where
  "glfwCreateWindow width height created st = emit (GlfwCreateWindow width height created) st"

definition glfwDestroyWindow :: "window option \<Rightarrow> state \<Rightarrow> state" where
  "glfwDestroyWindow w st = emit (GlfwDestroyWindow w) st"

definition glfwPostEmptyEvent :: "state \<Rightarrow> state" where
  "glfwPostEmptyEvent st = emit GlfwPostEmptyEvent st"

definition glfwTerminate :: "state \<Rightarrow> state" where
  "glfwTerminate st = emit GlfwTerminate st"

section \<open>The deferred task queue\<close>

text \<open>
  Modelled from the spec: the queue class behind \<^verbatim>\<open>thread_queue\<close> (its \<^verbatim>\<open>add\<close>,
  \<^verbatim>\<open>remove\<close> and \<^verbatim>\<open>get_size\<close>) is not among the sources. The spec makes it first-in
  first-out: \<^verbatim>\<open>add\<close> enqueues, \<^verbatim>\<open>remove\<close> pops the earliest-added task and blocks on an
  empty queue (\<open>None\<close> here), \<^verbatim>\<open>get_size\<close> is the number of pending tasks.
\<close>

definition queue_add :: "task \<Rightarrow> task list \<Rightarrow> task list" where
  "queue_add x q = q @ [x]"

definition queue_remove :: "task list \<Rightarrow> (task \<times> task list) option" where
  "queue_remove q = (case q of [] \<Rightarrow> None | x # r \<Rightarrow> Some (x, r))"

definition queue_get_size :: "task list \<Rightarrow> nat" where
  "queue_get_size q = length q"

section \<open>glfw\_context.cpp\<close>

subsection \<open>destroy\_glfw\_window::operator()\<close>

definition destroy_glfw_window :: "thread \<Rightarrow> window option \<Rightarrow> state \<Rightarrow> state" where
  "destroy_glfw_window t ptr st =
     (let st1 = glfwMakeContextCurrent t None st;
          st2 = st1\<lparr>thread_queue := queue_add (DestroyWindowTask ptr) (thread_queue st1)\<rparr>
      in glfwPostEmptyEvent st2)"

text \<open>
  Invoking a queued callable: the value it returns and the state it leaves. The destroy
  lambda calls \<^verbatim>\<open>glfwDestroyWindow(ptr)\<close> and returns \<^verbatim>\<open>true\<close>.
\<close>

fun run_task :: "task \<Rightarrow> state \<Rightarrow> bool \<times> state" where
  "run_task (DestroyWindowTask ptr) st = (True, glfwDestroyWindow ptr st)"
| "run_task (OtherTask n r) st = (r, emit (RunCallable n) st)"

subsection \<open>global\_glfw\_context\<close>

text \<open>
  \<^verbatim>\<open>execute_queue\<close>: the loop pops and invokes while the queue reports a positive size.
  \<open>None\<close> would be a \<^verbatim>\<open>remove()\<close> blocked on an empty queue.
\<close>

function execute_queue_loop :: "state \<Rightarrow> state option" where
  "execute_queue_loop st =
     (if queue_get_size (thread_queue st) > 0 then
        (case queue_remove (thread_queue st) of
           None \<Rightarrow> None
         | Some (first, rest) \<Rightarrow>
             (case run_task first (st\<lparr>thread_queue := rest\<rparr>) of
                (True, st') \<Rightarrow> execute_queue_loop (st'\<lparr>deleted := deleted st' @ [first]\<rparr>)
              | (False, st') \<Rightarrow> execute_queue_loop st'))
      else Some st)"
  by pat_completeness auto

lemma run_task_queue:
  "(b, st') = run_task x st \<Longrightarrow> thread_queue st' = thread_queue st"
  by (cases x) (auto simp: glfwDestroyWindow_def emit_def)

termination execute_queue_loop
proof (relation "measure (\<lambda>st. length (thread_queue st))", goal_cases)
  case 1
  show ?case by simp
next
  case (2 st x2 first rest b st')
  then show ?case
    by (auto simp: queue_remove_def dest!: run_task_queue split: list.splits)
next
  case (3 st x2 first rest b st')
  then show ?case
    by (auto simp: queue_remove_def dest!: run_task_queue split: list.splits)
qed

definition execute_queue :: "state \<Rightarrow> state option" where
  "execute_queue st = execute_queue_loop (emit ExecuteQueue st)"

subsection \<open>glfw\_context\<close>

definition make_current :: "thread \<Rightarrow> glfw_context \<Rightarrow> state \<Rightarrow> state" where
  "make_current t this st = glfwMakeContextCurrent t (pointer this) st"

text \<open>
  The owning pointer going away: \<^verbatim>\<open>pointer\<close> is reset and read through \<^verbatim>\<open>get()\<close>, with
  \<^verbatim>\<open>destroy_glfw_window\<close> as its deleter; a \<^verbatim>\<open>std::unique_ptr\<close> invokes its deleter
  only on a pointer that is not null.
\<close>

definition pointer_release :: "thread \<Rightarrow> window option \<Rightarrow> state \<Rightarrow> state" where
  "pointer_release t p st = (case p of None \<Rightarrow> st | Some w \<Rightarrow> destroy_glfw_window t (Some w) st)"

text \<open>
  The constructor, run on thread \<open>t\<close>. \<open>created\<close> is what \<^verbatim>\<open>glfwCreateWindow\<close> returns and
  \<open>glew_ok\<close> whether \<^verbatim>\<open>glewInit()\<close> returned \<^verbatim>\<open>GLEW_OK\<close>. \<^verbatim>\<open>context_version\<close> is a C++
  \<^verbatim>\<open>int\<close>: \<^verbatim>\<open>/\<close> and \<^verbatim>\<open>%\<close> truncate towards zero (\<open>sdiv\<close>, \<open>smod\<close>), and neither can
  overflow with the divisor 10. The throw unwinds the member \<^verbatim>\<open>pointer\<close>, already reset
  to the new window; the destructor body does not run for it.
\<close>

definition glfw_context_ctor ::
  "thread \<Rightarrow> int \<Rightarrow> window option \<Rightarrow> bool \<Rightarrow> state \<Rightarrow> (error + glfw_context) \<times> state" where
  "glfw_context_ctor t context_version created glew_ok st =
     (let st1 = glfwDefaultWindowHints st;
          st2 = glfwWindowHint GLFW_CONTEXT_VERSION_MAJOR (context_version sdiv 10) st1;
          st3 = glfwWindowHint GLFW_CONTEXT_VERSION_MINOR (context_version smod 10) st2;
          st4 = glfwWindowHint GLFW_VISIBLE GLFW_FALSE st3;
          st5 = glfwCreateWindow 1366 910 created st4;
          this = \<lparr>pointer = created\<rparr>;
          st6 = make_current t this st5;
          st7 = emit (GlewInit t) st6
      in if \<not> glew_ok then
           (Inl GLEW_failed_to_initialize, pointer_release t (pointer this) (glfwTerminate st7))
         else
           (let st8 = glfwMakeContextCurrent t None st7
            in (Inr this, st8\<lparr>active_contexts := active_contexts st8 + 1\<rparr>)))"

text \<open>The destructor body, then the destruction of the member \<^verbatim>\<open>pointer\<close>.\<close>

definition glfw_context_dtor :: "state \<Rightarrow> state" where
  "glfw_context_dtor st = st\<lparr>active_contexts := active_contexts st - 1\<rparr>"

definition glfw_context_destroy :: "thread \<Rightarrow> glfw_context \<Rightarrow> state \<Rightarrow> state" where
  "glfw_context_destroy t this st = pointer_release t (pointer this) (glfw_context_dtor st)"

subsection \<open>What other threads do\<close>

text \<open>
  A worker thread constructs a Context Handle (with the native results it gets) or destroys
  one it holds.
\<close>

datatype action =
    Construct thread int "window option" bool
  | Destroy thread glfw_context

fun run_action :: "action \<Rightarrow> state \<Rightarrow> state" where
  "run_action (Construct t v created glew_ok) st = snd (glfw_context_ctor t v created glew_ok st)"
| "run_action (Destroy t h) st = glfw_context_destroy t h st"

text \<open>
  The same step with the handles that are alive kept beside the state: a construction
  that returns adds its handle, one that throws adds none, and only a handle that is alive
  can be destroyed.
\<close>

fun step :: "action \<Rightarrow> state \<times> glfw_context list \<Rightarrow> state \<times> glfw_context list" where
  "step (Construct t v created glew_ok) (st, alive) =
     (case glfw_context_ctor t v created glew_ok st of
        (Inl e, st') \<Rightarrow> (st', alive)
      | (Inr h, st') \<Rightarrow> (st', alive @ [h]))"
| "step (Destroy t h) (st, alive) =
     (if h \<in> set alive then (glfw_context_destroy t h st, remove1 h alive) else (st, alive))"

definition run :: "action list \<Rightarrow> state \<times> glfw_context list \<Rightarrow> state \<times> glfw_context list" where
  "run acts s = foldl (\<lambda>s a. step a s) s acts"

subsection \<open>global\_glfw\_context::park\_thread\<close>

text \<open>
  The other threads run while the affinity thread is in \<^verbatim>\<open>park_thread\<close>: \<open>other_threads\<close>
  applies what they do between two of its statements.
\<close>

definition other_threads :: "action list \<Rightarrow> state \<Rightarrow> state" where
  "other_threads acts st = foldl (\<lambda>s a. run_action a s) st acts"

text \<open>
  \<^verbatim>\<open>glfwWaitEventsTimeout(0.1)\<close> returns after the timeout or an event; \<open>acts\<close> is what
  the other threads did in the meantime.
\<close>

definition glfwWaitEventsTimeout :: "action list \<Rightarrow> state \<Rightarrow> state" where
  "glfwWaitEventsTimeout acts st = other_threads acts (emit GlfwWaitEventsTimeout st)"

text \<open>
  The loop of \<^verbatim>\<open>park_thread\<close>. The schedule gives, for each pass, what the other threads
  do during the wait and what they do after the drain, before the loop condition is read
  again; when it is used up and the counter is still positive the thread is still parked
  (\<open>None\<close>).
\<close>

fun park_loop :: "(action list \<times> action list) list \<Rightarrow> state \<Rightarrow> state option" where
  "park_loop sched st =
     (if active_contexts st > 0 then
        (case sched of
           [] \<Rightarrow> None
         | (waiting, after) # rest \<Rightarrow>
             (case execute_queue (glfwWaitEventsTimeout waiting st) of
                None \<Rightarrow> None
              | Some st' \<Rightarrow> park_loop rest (other_threads after st')))
      else Some st)"

text \<open>
  \<^verbatim>\<open>park_thread\<close>: the loop, then the last \<^verbatim>\<open>execute_queue\<close>. \<open>late\<close> is what the other
  threads do after the loop condition has been read as false and before that last call;
  the counter is not read again.
\<close>

definition park_thread ::
  "(action list \<times> action list) list \<Rightarrow> action list \<Rightarrow> state \<Rightarrow> state option" where
  "park_thread sched late st =
     (case park_loop sched st of
        None \<Rightarrow> None
      | Some st' \<Rightarrow> execute_queue (other_threads late st'))"

section \<open>bootable\_game.cpp\<close>

record bootable_game =
  game_context :: glfw_context

text \<open>
  The constructor makes the Context Handle with version 43 (the copy of this class in
  glfw\_context.cpp asks for 33); the two callbacks it stores are arbitrary user code and
  stay opaque.
\<close>

definition bootable_game_ctor ::
  "thread \<Rightarrow> window option \<Rightarrow> bool \<Rightarrow> state \<Rightarrow> (error + bootable_game) \<times> state" where
  "bootable_game_ctor t created glew_ok st =
     (case glfw_context_ctor t 43 created glew_ok st of
        (Inl e, st') \<Rightarrow> (Inl e, st')
      | (Inr h, st') \<Rightarrow> (Inr \<lparr>game_context = h\<rparr>, st'))"

text \<open>
  The frame loop. Each element of \<open>frames\<close> is what the native library answers in one
  iteration: whether \<^verbatim>\<open>glfwWindowShouldClose\<close> returned \<^verbatim>\<open>GLFW_TRUE\<close>, and the value of
  \<^verbatim>\<open>glGetError()\<close> after the update callback. When the answers are used up the loop is
  still running (\<open>None\<close>).
\<close>

fun frame_loop :: "thread \<Rightarrow> bootable_game \<Rightarrow> (bool \<times> int) list \<Rightarrow> state \<Rightarrow> state option" where
  "frame_loop t this [] st = None"
| "frame_loop t this ((should_close, error) # frames) st =
     (let st1 = emit (GlfwWindowShouldClose (pointer (game_context this))) st
      in if should_close then Some st1
         else
           (let st2 = emit (TempUpdate t) st1;
                st3 = emit (GlGetError t) st2;
                st4 = (if error \<noteq> GL_NO_ERROR
                       then emit (Log Error ''An OpenGL error has occurred; context error flag is set to '' (Some error)) st3
                       else st3);
                st5 = emit (WindowSwapBuffers t) st4
            in frame_loop t this frames st5))"

text \<open>
  Modelled from the spec: the registry \<^verbatim>\<open>per_thread<T>\<close> is not among the sources. The
  spec gives its contract: \<^verbatim>\<open>get_or_create\<close> returns the calling thread's instance and
  raises the reference count by exactly one per call, \<^verbatim>\<open>set\<close> installs an existing
  instance, \<^verbatim>\<open>remove_reference\<close> lowers the count by one (the instance is destroyed when
  it reaches zero). Each call is recorded in the trace; constructing and destroying the
  instance happen inside the absent class and leave no mark here.
\<close>

definition per_thread_set :: "thread \<Rightarrow> resource \<Rightarrow> state \<Rightarrow> state" where
  "per_thread_set t r st = emit (PerThreadSet t r) st"

definition per_thread_get_or_create :: "thread \<Rightarrow> resource \<Rightarrow> state \<Rightarrow> state" where
  "per_thread_get_or_create t r st =
     emit (PerThreadGetOrCreate t r)
       (st\<lparr>references := (references st)((t, r) := references st (t, r) + 1)\<rparr>)"

definition per_thread_remove_reference :: "thread \<Rightarrow> resource \<Rightarrow> state \<Rightarrow> state" where
  "per_thread_remove_reference t r st =
     emit (PerThreadRemoveReference t r)
       (st\<lparr>references := (references st)((t, r) := references st (t, r) - 1)\<rparr>)"

text \<open>
  \<^verbatim>\<open>bootable_game::park_thread\<close>, run on the worker thread \<open>t\<close>. \<^verbatim>\<open>get_or_create\<close> after
  \<^verbatim>\<open>set\<close> returns the handle that was set. The user callbacks are opaque and taken to
  return without touching the registry. The elapsed time appended to the last message
  before the loop is a floating-point value and is left out.
\<close>

definition bootable_game_park_thread ::
  "thread \<Rightarrow> bootable_game \<Rightarrow> (bool \<times> int) list \<Rightarrow> state \<Rightarrow> state option" where
  "bootable_game_park_thread t this frames st =
     (let st = emit (Log Info ''Branched primary application thread for graphical context'' None) st;
          st = per_thread_set t R_glfw_context st;
          st = per_thread_get_or_create t R_glfw_context st;
          st = make_current t (game_context this) st;
          st = emit (Log Info ''Initializing additional window and user input devices . . .'' None) st;
          st = per_thread_get_or_create t R_glfw_window st;
          st = emit (Log Debug ''Successfully initialized window utilities'' None) st;
          st = emit (Log Debug ''Successfully initialized keyboard utilities'' None) st;
          st = emit (Log Debug ''Successfully initialized mouse utilities'' None) st;
          st = emit (Log Info ''Invoking application initialization section . . .'' None) st;
          st = emit (TempStart t) st;
          st = per_thread_get_or_create t R_glfw_window st;
          st = emit (WindowShow t) st;
          st = emit InitTimeUpdate st;
          st = emit (Log Info ''Initialization successfully completed!'' None) st
      in case frame_loop t this frames st of
           None \<Rightarrow> None
         | Some st \<Rightarrow>
             (let st = per_thread_remove_reference t R_glfw_window st;
                  st = per_thread_remove_reference t R_glfw_window st
              in Some st))"

text \<open>
  glfw\_context.cpp holds a second definition of the worker's \<^verbatim>\<open>park_thread\<close>: the same
  calls without the logger, the timer and the \<^verbatim>\<open>glGetError\<close> check.
\<close>

fun frame_loop_copy :: "thread \<Rightarrow> bootable_game \<Rightarrow> bool list \<Rightarrow> state \<Rightarrow> state option" where
  "frame_loop_copy t this [] st = None"
| "frame_loop_copy t this (should_close # frames) st =
     (let st1 = emit (GlfwWindowShouldClose (pointer (game_context this))) st
      in if should_close then Some st1
         else
           (let st2 = emit (TempUpdate t) st1;
                st3 = emit (WindowSwapBuffers t) st2
            in frame_loop_copy t this frames st3))"

definition bootable_game_park_thread_copy ::
  "thread \<Rightarrow> bootable_game \<Rightarrow> bool list \<Rightarrow> state \<Rightarrow> state option" where
  "bootable_game_park_thread_copy t this frames st =
     (let st = per_thread_set t R_glfw_context st;
          st = per_thread_get_or_create t R_glfw_context st;
          st = make_current t (game_context this) st;
          st = per_thread_get_or_create t R_glfw_window st;
          st = emit (TempStart t) st;
          st = per_thread_get_or_create t R_glfw_window st;
          st = emit (WindowShow t) st
      in case frame_loop_copy t this frames st of
           None \<Rightarrow> None
         | Some st \<Rightarrow>
             (let st = per_thread_remove_reference t R_glfw_window st;
                  st = per_thread_remove_reference t R_glfw_window st
              in Some st))"

section \<open>Reading the state and the trace\<close>

text \<open>The process before any context exists: counter zero, nothing queued, nothing current.\<close>

definition initial :: state where
  "initial = \<lparr>active_contexts = 0, thread_queue = [], current_context = (\<lambda>t. None),
     window_hints = (\<lambda>h. None), deleted = [], references = (\<lambda>k. 0), trace = []\<rparr>"

text \<open>What invoking a queued callable leaves in the trace, and what it returns.\<close>

fun task_event :: "task \<Rightarrow> event" where
  "task_event (DestroyWindowTask ptr) = GlfwDestroyWindow ptr"
| "task_event (OtherTask n r) = RunCallable n"

fun task_result :: "task \<Rightarrow> bool" where
  "task_result (DestroyWindowTask ptr) = True"
| "task_result (OtherTask n r) = r"

text \<open>
  The state one call of \<^verbatim>\<open>execute_queue\<close> leaves: the queue is empty, every callable that
  was pending has been invoked once, in queue order, and those that returned \<^verbatim>\<open>true\<close> are
  freed.
\<close>

definition drained :: "state \<Rightarrow> state" where
  "drained st = st\<lparr>thread_queue := [],
     deleted := deleted st @ filter task_result (thread_queue st),
     trace := trace st @ ExecuteQueue # map task_event (thread_queue st)\<rparr>"

text \<open>
  One pass of the parking loop, from one reading of the loop condition to the next, and
  the state at the \<open>k\<close>-th reading of the loop condition (\<open>k = 0\<close> is the entry).
\<close>

definition park_iteration :: "action list \<times> action list \<Rightarrow> state \<Rightarrow> state" where
  "park_iteration pass st =
     other_threads (snd pass) (drained (glfwWaitEventsTimeout (fst pass) st))"

definition park_state :: "nat \<Rightarrow> (action list \<times> action list) list \<Rightarrow> state \<Rightarrow> state" where
  "park_state k sched st = foldl (\<lambda>s pass. park_iteration pass s) st (take k sched)"

text \<open>
  The registry calls of a trace, in order, and the number of \<^verbatim>\<open>remove_reference\<close> calls of
  thread \<open>t\<close> for resource \<open>r\<close>.
\<close>

fun is_registry_call :: "event \<Rightarrow> bool" where
  "is_registry_call (PerThreadSet t r) = True"
| "is_registry_call (PerThreadGetOrCreate t r) = True"
| "is_registry_call (PerThreadRemoveReference t r) = True"
| "is_registry_call e = False"

definition registry_calls :: "state \<Rightarrow> event list" where
  "registry_calls st = filter is_registry_call (trace st)"

definition releases :: "thread \<Rightarrow> resource \<Rightarrow> state \<Rightarrow> nat" where
  "releases t r st = count_list (trace st) (PerThreadRemoveReference t r)"


section \<open>The drain\<close>

declare execute_queue_loop.simps [simp del]

lemma execute_queue_loop_Nil:
  "thread_queue st = [] \<Longrightarrow> execute_queue_loop st = Some st"
  by (simp add: execute_queue_loop.simps [of st] queue_get_size_def)

lemma execute_queue_loop_Cons:
  "thread_queue st = first # rest \<Longrightarrow>
   execute_queue_loop st =
     (let st' = snd (run_task first (st\<lparr>thread_queue := rest\<rparr>))
      in execute_queue_loop (if task_result first then st'\<lparr>deleted := deleted st' @ [first]\<rparr> else st'))"
  by (cases first)
     (simp_all add: execute_queue_loop.simps [of st] queue_get_size_def queue_remove_def Let_def
        split: bool.splits)

lemma execute_queue_loop_closed:
  "execute_queue_loop st =
     Some (st\<lparr>thread_queue := [],
              deleted := deleted st @ filter task_result (thread_queue st),
              trace := trace st @ map task_event (thread_queue st)\<rparr>)"
proof (induction "thread_queue st" arbitrary: st)
  case Nil
  then show ?case
    by (simp add: execute_queue_loop_Nil [of st])
next
  case (Cons first rest)
  then have q: "thread_queue st = first # rest" by simp
  let ?s0 = "snd (run_task first (st\<lparr>thread_queue := rest\<rparr>))"
  let ?s = "if task_result first then ?s0\<lparr>deleted := deleted ?s0 @ [first]\<rparr> else ?s0"
  have r: "rest = thread_queue ?s"
    by (cases first) (simp_all add: glfwDestroyWindow_def emit_def)
  have "execute_queue_loop st = execute_queue_loop ?s"
    using execute_queue_loop_Cons [OF q] by (simp add: Let_def)
  also have "\<dots> = Some (?s\<lparr>thread_queue := [],
              deleted := deleted ?s @ filter task_result (thread_queue ?s),
              trace := trace ?s @ map task_event (thread_queue ?s)\<rparr>)"
    by (rule Cons.hyps(1) [OF r])
  also have "\<dots> = Some (st\<lparr>thread_queue := [],
              deleted := deleted st @ filter task_result (thread_queue st),
              trace := trace st @ map task_event (thread_queue st)\<rparr>)"
    using q by (cases first) (simp_all add: glfwDestroyWindow_def emit_def)
  finally show ?case .
qed

lemma execute_queue_drained: "execute_queue st = Some (drained st)"
  by (simp add: execute_queue_def execute_queue_loop_closed drained_def emit_def)

lemma drained_counter [simp]: "active_contexts (drained st) = active_contexts st"
  by (simp add: drained_def)

text \<open>
  C3. Whatever callables are pending when \<^verbatim>\<open>execute_queue\<close> is called, the one call
  returns, with the queue empty, after invoking each of them exactly once in first-in
  first-out order: the trace grows by the entry mark and then one invocation per pending
  callable, in queue order, and the callables that returned \<^verbatim>\<open>true\<close> are freed, in that
  order. Nothing else changes.
\<close>

theorem execute_queue_runs_each_pending_task_once_fifo:
  "execute_queue st =
     Some (st\<lparr>thread_queue := [],
              deleted := deleted st @ filter task_result (thread_queue st),
              trace := trace st @ ExecuteQueue # map task_event (thread_queue st)\<rparr>)"
  by (simp add: execute_queue_drained drained_def)

theorem execute_queue_runs_each_pending_task_once_fifo_witness:
  "execute_queue
     (initial\<lparr>thread_queue := [OtherTask 1 True, DestroyWindowTask (Some 5), OtherTask 3 False]\<rparr>) =
   Some (initial\<lparr>thread_queue := [],
           deleted := [OtherTask 1 True, DestroyWindowTask (Some 5)],
           trace := [ExecuteQueue, RunCallable 1, GlfwDestroyWindow (Some 5), RunCallable 3]\<rparr>)"
  using execute_queue_runs_each_pending_task_once_fifo
    [of "initial\<lparr>thread_queue := [OtherTask 1 True, DestroyWindowTask (Some 5), OtherTask 3 False]\<rparr>"]
  by (simp add: initial_def)

section \<open>Context Handles and the counter\<close>

lemmas native_defs = emit_def glfwMakeContextCurrent_def glfwDefaultWindowHints_def
  glfwWindowHint_def glfwCreateWindow_def glfwDestroyWindow_def glfwPostEmptyEvent_def
  glfwTerminate_def queue_add_def

lemmas handle_defs = destroy_glfw_window_def pointer_release_def make_current_def
  glfw_context_ctor_def glfw_context_dtor_def glfw_context_destroy_def

lemma ctor_counter:
  "active_contexts (snd (glfw_context_ctor t v created glew_ok st)) =
     active_contexts st + (if glew_ok then 1 else 0)"
  by (simp add: handle_defs native_defs Let_def split: option.splits)

lemma ctor_result:
  "fst (glfw_context_ctor t v created glew_ok st) =
     (if glew_ok then Inr \<lparr>pointer = created\<rparr> else Inl GLEW_failed_to_initialize)"
  by (simp add: handle_defs Let_def)

lemma destroy_counter:
  "active_contexts (glfw_context_destroy t h st) = active_contexts st - 1"
  by (simp add: handle_defs native_defs Let_def split: option.splits)

lemma step_invariant:
  "active_contexts (fst s) = int (length (snd s)) \<Longrightarrow>
   active_contexts (fst (step a s)) = int (length (snd (step a s)))"
proof (cases s)
  case (Pair st alive)
  assume inv: "active_contexts (fst s) = int (length (snd s))"
  show ?thesis
  proof (cases a)
    case (Construct t v created glew_ok)
    obtain r st' where c: "glfw_context_ctor t v created glew_ok st = (r, st')"
      by (cases "glfw_context_ctor t v created glew_ok st")
    from c ctor_counter [of t v created glew_ok st] ctor_result [of t v created glew_ok st]
    show ?thesis using inv Pair Construct by (cases glew_ok) auto
  next
    case (Destroy t h)
    show ?thesis
    proof (cases "h \<in> set alive")
      case True
      then have "int (length alive - 1) = int (length alive) - 1"
        by (cases alive) simp_all
      with True inv Pair Destroy show ?thesis
        by (simp add: destroy_counter length_remove1)
    next
      case False
      with inv Pair Destroy show ?thesis by simp
    qed
  qed
qed

lemma run_invariant:
  "active_contexts (fst s) = int (length (snd s)) \<Longrightarrow>
   active_contexts (fst (run acts s)) = int (length (snd (run acts s)))"
  unfolding run_def
  by (induction acts arbitrary: s) (simp_all add: step_invariant)

text \<open>
  C1. Start anywhere the counter equals the number of handles alive (at process start:
  zero and none). After any number \<open>n\<close> of steps of any sequence of constructions and
  destructions, issued from any threads, the counter equals the number of handles
  constructed and not yet destroyed. A construction that returns adds one, a construction
  that throws adds nothing, and a destruction subtracts one.
\<close>

theorem live_counter_equals_alive_handles:
  assumes "active_contexts st = int (length alive)"
  shows "active_contexts (fst (run (take n acts) (st, alive))) =
           int (length (snd (run (take n acts) (st, alive)))) \<and>
         active_contexts (snd (glfw_context_ctor t v created True s)) = active_contexts s + 1 \<and>
         active_contexts (snd (glfw_context_ctor t v created False s)) = active_contexts s \<and>
         active_contexts (glfw_context_destroy t h s) = active_contexts s - 1"
proof -
  have "active_contexts (fst (st, alive)) = int (length (snd (st, alive)))"
    using assms by simp
  then have "active_contexts (fst (run (take n acts) (st, alive))) =
      int (length (snd (run (take n acts) (st, alive))))"
    by (rule run_invariant)
  then show ?thesis
    by (simp add: ctor_counter destroy_counter)
qed

theorem live_counter_equals_alive_handles_witness:
  "active_contexts initial = int (length ([]::glfw_context list)) \<and>
   active_contexts (fst (run (take 3
      [Construct 1 43 (Some 5) True, Construct 2 99 None False, Construct 3 33 (Some 6) True,
       Destroy 1 \<lparr>pointer = Some 5\<rparr>]) (initial, []))) = 2 \<and>
   snd (run (take 3
      [Construct 1 43 (Some 5) True, Construct 2 99 None False, Construct 3 33 (Some 6) True,
       Destroy 1 \<lparr>pointer = Some 5\<rparr>]) (initial, [])) = [\<lparr>pointer = Some 5\<rparr>, \<lparr>pointer = Some 6\<rparr>]"
  using live_counter_equals_alive_handles [of initial "[]" 3
      "[Construct 1 43 (Some 5) True, Construct 2 99 None False, Construct 3 33 (Some 6) True,
        Destroy 1 \<lparr>pointer = Some 5\<rparr>]"]
  by (simp add: initial_def run_def handle_defs native_defs Let_def)







text \<open>
  C7. For every requested version \<open>v\<close>, a construction that returns has set the major
  version hint to \<open>v / 10\<close> and the minor one to \<open>v % 10\<close> (C++ integer division and
  remainder), the visibility hint to off; it created the window after setting the hints,
  made it current on the constructing thread \<open>t\<close> before initialising the function loader,
  and left \<open>t\<close> without a current context before returning.
\<close>

theorem construction_sets_hints_and_relinquishes:
  "fst (glfw_context_ctor t v created True st) = Inr \<lparr>pointer = created\<rparr> \<and>
   window_hints (snd (glfw_context_ctor t v created True st)) GLFW_CONTEXT_VERSION_MAJOR =
     Some (v sdiv 10) \<and>
   window_hints (snd (glfw_context_ctor t v created True st)) GLFW_CONTEXT_VERSION_MINOR =
     Some (v smod 10) \<and>
   window_hints (snd (glfw_context_ctor t v created True st)) GLFW_VISIBLE = Some GLFW_FALSE \<and>
   trace (snd (glfw_context_ctor t v created True st)) = trace st @
     [GlfwDefaultWindowHints,
      GlfwWindowHint GLFW_CONTEXT_VERSION_MAJOR (v sdiv 10),
      GlfwWindowHint GLFW_CONTEXT_VERSION_MINOR (v smod 10),
      GlfwWindowHint GLFW_VISIBLE GLFW_FALSE,
      GlfwCreateWindow 1366 910 created,
      GlfwMakeContextCurrent t created,
      GlewInit t,
      GlfwMakeContextCurrent t None] \<and>
   current_context (snd (glfw_context_ctor t v created True st)) t = None"
  by (simp add: handle_defs native_defs Let_def)

theorem construction_sets_hints_and_relinquishes_witness:
  "window_hints (snd (glfw_context_ctor 1 43 (Some 5) True initial)) GLFW_CONTEXT_VERSION_MAJOR = Some 4 \<and>
   window_hints (snd (glfw_context_ctor 1 43 (Some 5) True initial)) GLFW_CONTEXT_VERSION_MINOR = Some 3 \<and>
   window_hints (snd (glfw_context_ctor 1 43 (Some 5) True initial)) GLFW_VISIBLE = Some 0 \<and>
   current_context (snd (glfw_context_ctor 1 43 (Some 5) True initial)) 1 = None"
  using construction_sets_hints_and_relinquishes [of 1 43 "Some 5" initial]
  by (simp add: signed_divide_int_def signed_modulo_int_def GLFW_FALSE_def)

text \<open>
  C10. The deleter leaves the calling thread \<open>t\<close> without a current context whatever the
  pointer it is given and whatever was current on \<open>t\<close>, also a window other than the one
  being destroyed; the current contexts of the other threads are untouched.
\<close>

theorem deleter_clears_current_context_of_caller:
  "current_context (destroy_glfw_window t ptr st) = (current_context st)(t := None)"
  by (simp add: handle_defs native_defs Let_def)

theorem deleter_clears_current_context_of_caller_witness:
  "current_context (initial\<lparr>current_context := (\<lambda>t. None)(2 := Some 9)\<rparr>) 2 = Some 9 \<and>
   current_context
     (destroy_glfw_window 2 (Some 5) (initial\<lparr>current_context := (\<lambda>t. None)(2 := Some 9)\<rparr>)) 2 = None"
  using deleter_clears_current_context_of_caller
    [of 2 "Some 5" "initial\<lparr>current_context := (\<lambda>t. None)(2 := Some 9)\<rparr>"]
  by (simp add: initial_def)

section \<open>The parking loop\<close>

lemma park_loop_Nil: "park_loop [] st = (if active_contexts st > 0 then None else Some st)"
  by simp

lemma park_loop_Cons:
  "park_loop (pass # rest) st =
     (if active_contexts st > 0 then park_loop rest (park_iteration pass st) else Some st)"
  by (cases pass) (simp add: execute_queue_drained park_iteration_def)

declare park_loop.simps [simp del]

lemma park_state_0 [simp]: "park_state 0 sched st = st"
  by (simp add: park_state_def)

lemma park_state_Suc [simp]:
  "park_state (Suc k) (pass # rest) st = park_state k rest (park_iteration pass st)"
  by (simp add: park_state_def)

lemma park_loop_Some:
  "park_loop sched st = Some s \<Longrightarrow>
   \<exists>k\<le>length sched. s = park_state k sched st \<and> active_contexts s \<le> 0 \<and>
     (\<forall>j<k. 0 < active_contexts (park_state j sched st))"
proof (induction sched arbitrary: st)
  case Nil
  then show ?case by (simp add: park_loop_Nil split: if_splits)
next
  case (Cons pass rest)
  show ?case
  proof (cases "0 < active_contexts st")
    case False
    with Cons.prems have "s = st" by (simp add: park_loop_Cons)
    with False show ?thesis by (intro exI [of _ 0]) simp
  next
    case True
    with Cons.prems have "park_loop rest (park_iteration pass st) = Some s"
      by (simp add: park_loop_Cons)
    from Cons.IH [OF this] obtain k where k: "k \<le> length rest"
      "s = park_state k rest (park_iteration pass st)" "active_contexts s \<le> 0"
      "\<forall>j<k. 0 < active_contexts (park_state j rest (park_iteration pass st))"
      by blast
    have "\<forall>j<Suc k. 0 < active_contexts (park_state j (pass # rest) st)"
    proof (intro allI impI)
      fix j assume "j < Suc k"
      then show "0 < active_contexts (park_state j (pass # rest) st)"
        using True k(4) by (cases j) simp_all
    qed
    with k show ?thesis by (intro exI [of _ "Suc k"]) simp
  qed
qed

lemma park_loop_None:
  "park_loop sched st = None \<Longrightarrow> k \<le> length sched \<Longrightarrow> 0 < active_contexts (park_state k sched st)"
proof (induction sched arbitrary: st k)
  case Nil
  then show ?case by (simp add: park_loop_Nil split: if_splits)
next
  case (Cons pass rest)
  from Cons.prems(1) have pos: "0 < active_contexts st"
    and rec: "park_loop rest (park_iteration pass st) = None"
    by (simp_all add: park_loop_Cons split: if_splits)
  show ?case
  proof (cases k)
    case 0
    with pos show ?thesis by simp
  next
    case (Suc k')
    with Cons.prems(2) have "k' \<le> length rest" by simp
    from Cons.IH [OF rec this] Suc show ?thesis by simp
  qed
qed

lemma park_thread_eq:
  "park_thread sched late st =
     (case park_loop sched st of None \<Rightarrow> None | Some s \<Rightarrow> Some (drained (other_threads late s)))"
  by (simp add: park_thread_def execute_queue_drained split: option.splits)

lemmas park_eval = park_thread_def park_loop_Nil park_loop_Cons park_iteration_def drained_def
  glfwWaitEventsTimeout_def other_threads_def execute_queue_drained handle_defs native_defs
  Let_def initial_def

text \<open>
  C2. As stated the claim fails: the counter is read only by the loop condition, so a
  context constructed by another thread after the loop condition was read as false, and
  before the final drain, leaves \<^verbatim>\<open>park_thread\<close> returning with the counter at one.
\<close>

theorem park_thread_returns_with_live_context_counterexample:
  "map_option active_contexts
     (park_thread [([Destroy 2 \<lparr>pointer = Some 5\<rparr>], [])] [Construct 3 43 (Some 6) True]
        (initial\<lparr>active_contexts := 1\<rparr>)) = Some 1"
  by (simp add: park_eval)

text \<open>
  C2, amended. \<^verbatim>\<open>park_thread\<close> does not leave its loop as long as every reading of the
  loop condition finds the counter positive, and it leaves it at the first reading that
  does not. When it returns, the loop condition has found the counter positive at every
  earlier reading and not positive at the last one, and the state returned is what exactly
  one call of \<^verbatim>\<open>execute_queue\<close> makes of the state the other threads left after that last
  reading. The other threads act during the waits, after each drain and after the last
  reading.
\<close>

theorem park_thread_returns_only_at_zero_after_one_drain:
  "(park_thread sched late st = None \<longleftrightarrow>
      (\<forall>k\<le>length sched. 0 < active_contexts (park_state k sched st))) \<and>
   (\<forall>st'. park_thread sched late st = Some st' \<longrightarrow>
      (\<exists>k\<le>length sched.
         (\<forall>j<k. 0 < active_contexts (park_state j sched st)) \<and>
         active_contexts (park_state k sched st) \<le> 0 \<and>
         execute_queue (other_threads late (park_state k sched st)) = Some st' \<and>
         st' = drained (other_threads late (park_state k sched st))))"
proof (intro conjI allI impI iffI)
  fix k
  assume "park_thread sched late st = None" "k \<le> length sched"
  then show "0 < active_contexts (park_state k sched st)"
    using park_loop_None [of sched st k] by (simp add: park_thread_eq split: option.splits)
next
  assume pos: "\<forall>k\<le>length sched. 0 < active_contexts (park_state k sched st)"
  show "park_thread sched late st = None"
  proof (cases "park_loop sched st")
    case None
    then show ?thesis by (simp add: park_thread_eq)
  next
    case (Some s)
    from park_loop_Some [OF this] pos show ?thesis by fastforce
  qed
next
  fix st'
  assume "park_thread sched late st = Some st'"
  then obtain s where s: "park_loop sched st = Some s"
    and st': "st' = drained (other_threads late s)"
    by (auto simp: park_thread_eq split: option.splits)
  from park_loop_Some [OF s] obtain k where k: "k \<le> length sched"
    "s = park_state k sched st" "active_contexts s \<le> 0"
    "\<forall>j<k. 0 < active_contexts (park_state j sched st)"
    by blast
  show "\<exists>k\<le>length sched.
         (\<forall>j<k. 0 < active_contexts (park_state j sched st)) \<and>
         active_contexts (park_state k sched st) \<le> 0 \<and>
         execute_queue (other_threads late (park_state k sched st)) = Some st' \<and>
         st' = drained (other_threads late (park_state k sched st))"
    using k st' by (intro exI [of _ k]) (simp add: execute_queue_drained)
qed

theorem park_thread_returns_only_at_zero_after_one_drain_witness:
  "park_thread [([], []), ([], [])] [] (initial\<lparr>active_contexts := 1\<rparr>) = None \<and>
   park_thread [([], []), ([], [Destroy 2 \<lparr>pointer = Some 5\<rparr>]), ([Construct 3 43 (Some 6) True], [])] []
       (initial\<lparr>active_contexts := 1\<rparr>) =
     Some (initial\<lparr>trace :=
        [GlfwWaitEventsTimeout, ExecuteQueue,
         GlfwWaitEventsTimeout, ExecuteQueue,
         GlfwMakeContextCurrent 2 None, GlfwPostEmptyEvent,
         ExecuteQueue, GlfwDestroyWindow (Some 5)],
        deleted := [DestroyWindowTask (Some 5)]\<rparr>)"
  using park_thread_returns_only_at_zero_after_one_drain
      [of "[([], []), ([], [])]" "[]" "initial\<lparr>active_contexts := 1\<rparr>"]
    park_thread_returns_only_at_zero_after_one_drain
      [of "[([], []), ([], [Destroy 2 \<lparr>pointer = Some 5\<rparr>]), ([Construct 3 43 (Some 6) True], [])]"
        "[]" "initial\<lparr>active_contexts := 1\<rparr>"]
  by (simp add: park_eval)

text \<open>
  C9. Called with the counter not positive, \<^verbatim>\<open>park_thread\<close> never waits: it is exactly one
  call of \<^verbatim>\<open>execute_queue\<close> on the state at entry (as the other threads left it, if they
  acted since the loop condition was read), so every callable pending at entry is invoked,
  whatever the other threads would have done during a wait.
\<close>

theorem park_thread_at_zero_only_drains:
  assumes "active_contexts st \<le> 0"
  shows "park_thread sched late st = execute_queue (other_threads late st) \<and>
         park_thread sched [] st = execute_queue st \<and>
         execute_queue st =
           Some (st\<lparr>thread_queue := [],
                   deleted := deleted st @ filter task_result (thread_queue st),
                   trace := trace st @ ExecuteQueue # map task_event (thread_queue st)\<rparr>)"
proof -
  from assms have "park_loop sched st = Some st"
    by (cases sched) (simp_all add: park_loop_Nil park_loop_Cons)
  then show ?thesis
    by (simp add: park_thread_def execute_queue_drained drained_def other_threads_def)
qed

theorem park_thread_at_zero_only_drains_witness:
  "active_contexts (initial\<lparr>thread_queue := [DestroyWindowTask (Some 5), OtherTask 7 False]\<rparr>) \<le> 0 \<and>
   park_thread [([Construct 3 43 (Some 6) True], [])] []
      (initial\<lparr>thread_queue := [DestroyWindowTask (Some 5), OtherTask 7 False]\<rparr>) =
     Some (initial\<lparr>deleted := [DestroyWindowTask (Some 5)],
             trace := [ExecuteQueue, GlfwDestroyWindow (Some 5), RunCallable 7]\<rparr>)"
proof -
  have h: "active_contexts (initial\<lparr>thread_queue := [DestroyWindowTask (Some 5), OtherTask 7 False]\<rparr>) \<le> 0"
    by (simp add: initial_def)
  note drains = park_thread_at_zero_only_drains [OF h, of "[([Construct 3 43 (Some 6) True], [])]" "[]"]
  from drains have "park_thread [([Construct 3 43 (Some 6) True], [])] []
      (initial\<lparr>thread_queue := [DestroyWindowTask (Some 5), OtherTask 7 False]\<rparr>) =
    Some (initial\<lparr>thread_queue := [DestroyWindowTask (Some 5), OtherTask 7 False]\<rparr>
           \<lparr>thread_queue := [],
             deleted := deleted (initial\<lparr>thread_queue := [DestroyWindowTask (Some 5), OtherTask 7 False]\<rparr>) @
               filter task_result [DestroyWindowTask (Some 5), OtherTask 7 False],
             trace := trace (initial\<lparr>thread_queue := [DestroyWindowTask (Some 5), OtherTask 7 False]\<rparr>) @
               ExecuteQueue # map task_event [DestroyWindowTask (Some 5), OtherTask 7 False]\<rparr>)"
    by (simp add: other_threads_def)
  with h show ?thesis by (simp add: initial_def)
qed

section \<open>The worker's frame loop\<close>

lemmas registry_defs = per_thread_set_def per_thread_get_or_create_def
  per_thread_remove_reference_def

lemma frame_loop_closed:
  "frame_loop t this frames st = Some s \<Longrightarrow>
   \<exists>evs. s = st\<lparr>trace := trace st @ evs @ [GlfwWindowShouldClose (pointer (game_context this))]\<rparr> \<and>
     filter is_registry_call evs = []"
proof (induction frames arbitrary: st)
  case Nil
  then show ?case by simp
next
  case (Cons f frames)
  obtain should_close error where f: "f = (should_close, error)" by (cases f)
  show ?case
  proof (cases should_close)
    case True
    with Cons.prems f have "s = st\<lparr>trace := trace st @ [] @ [GlfwWindowShouldClose (pointer (game_context this))]\<rparr>"
      by (simp add: emit_def)
    then show ?thesis by (intro exI [of _ "[]"]) simp
  next
    case False
    define head where "head =
      [GlfwWindowShouldClose (pointer (game_context this)), TempUpdate t, GlGetError t] @
      (if error \<noteq> GL_NO_ERROR
       then [Log Error ''An OpenGL error has occurred; context error flag is set to '' (Some error)]
       else []) @ [WindowSwapBuffers t]"
    have reg: "filter is_registry_call head = []" by (simp add: head_def)
    from Cons.prems f False
    have "frame_loop t this frames (st\<lparr>trace := trace st @ head\<rparr>) = Some s"
      by (simp add: Let_def emit_def head_def split: if_splits)
    from Cons.IH [OF this] obtain evs where
      evs: "s = st\<lparr>trace := trace st @ head\<rparr>\<lparr>trace := trace (st\<lparr>trace := trace st @ head\<rparr>) @ evs @
              [GlfwWindowShouldClose (pointer (game_context this))]\<rparr>"
      and none: "filter is_registry_call evs = []"
      by blast
    from evs have "s = st\<lparr>trace := trace st @ (head @ evs) @
        [GlfwWindowShouldClose (pointer (game_context this))]\<rparr>"
      by simp
    with reg none show ?thesis by (intro exI [of _ "head @ evs"]) simp
  qed
qed

lemma frame_loop_copy_closed:
  "frame_loop_copy t this frames st = Some s \<Longrightarrow>
   \<exists>evs. s = st\<lparr>trace := trace st @ evs @ [GlfwWindowShouldClose (pointer (game_context this))]\<rparr> \<and>
     filter is_registry_call evs = []"
proof (induction frames arbitrary: st)
  case Nil
  then show ?case by simp
next
  case (Cons should_close frames)
  show ?case
  proof (cases should_close)
    case True
    with Cons.prems have "s = st\<lparr>trace := trace st @ [] @ [GlfwWindowShouldClose (pointer (game_context this))]\<rparr>"
      by (simp add: emit_def)
    then show ?thesis by (intro exI [of _ "[]"]) simp
  next
    case False
    define head where "head =
      [GlfwWindowShouldClose (pointer (game_context this)), TempUpdate t, WindowSwapBuffers t]"
    have reg: "filter is_registry_call head = []" by (simp add: head_def)
    from Cons.prems False
    have "frame_loop_copy t this frames (st\<lparr>trace := trace st @ head\<rparr>) = Some s"
      by (simp add: Let_def emit_def head_def)
    from Cons.IH [OF this] obtain evs where
      evs: "s = st\<lparr>trace := trace st @ head\<rparr>\<lparr>trace := trace (st\<lparr>trace := trace st @ head\<rparr>) @ evs @
              [GlfwWindowShouldClose (pointer (game_context this))]\<rparr>"
      and none: "filter is_registry_call evs = []"
      by blast
    from evs have "s = st\<lparr>trace := trace st @ (head @ evs) @
        [GlfwWindowShouldClose (pointer (game_context this))]\<rparr>"
      by simp
    with reg none show ?thesis by (intro exI [of _ "head @ evs"]) simp
  qed
qed

lemma park_thread_unfold:
  "bootable_game_park_thread t this frames st =
     (case frame_loop t this frames
        (st\<lparr>current_context := (current_context st)(t := pointer (game_context this)),
            references := (references st)
              ((t, R_glfw_context) := references st (t, R_glfw_context) + 1,
               (t, R_glfw_window) := 2 + references st (t, R_glfw_window)),
            trace := trace st @
         [Log Info ''Branched primary application thread for graphical context'' None,
          PerThreadSet t R_glfw_context, PerThreadGetOrCreate t R_glfw_context,
          GlfwMakeContextCurrent t (pointer (game_context this)),
          Log Info ''Initializing additional window and user input devices . . .'' None,
          PerThreadGetOrCreate t R_glfw_window,
          Log Debug ''Successfully initialized window utilities'' None,
          Log Debug ''Successfully initialized keyboard utilities'' None,
          Log Debug ''Successfully initialized mouse utilities'' None,
          Log Info ''Invoking application initialization section . . .'' None,
          TempStart t, PerThreadGetOrCreate t R_glfw_window, WindowShow t, InitTimeUpdate,
          Log Info ''Initialization successfully completed!'' None]\<rparr>) of
        None \<Rightarrow> None
      | Some exited \<Rightarrow>
          Some (exited\<lparr>references := (references exited)
                   ((t, R_glfw_window) := references exited (t, R_glfw_window) - 2),
                 trace := trace exited @
                   [PerThreadRemoveReference t R_glfw_window,
                    PerThreadRemoveReference t R_glfw_window]\<rparr>))"
  by (simp add: bootable_game_park_thread_def Let_def registry_defs make_current_def
        glfwMakeContextCurrent_def emit_def split: option.splits)

lemma park_thread_copy_unfold:
  "bootable_game_park_thread_copy t this closes st =
     (case frame_loop_copy t this closes
        (st\<lparr>current_context := (current_context st)(t := pointer (game_context this)),
            references := (references st)
              ((t, R_glfw_context) := references st (t, R_glfw_context) + 1,
               (t, R_glfw_window) := 2 + references st (t, R_glfw_window)),
            trace := trace st @
         [PerThreadSet t R_glfw_context, PerThreadGetOrCreate t R_glfw_context,
          GlfwMakeContextCurrent t (pointer (game_context this)),
          PerThreadGetOrCreate t R_glfw_window, TempStart t,
          PerThreadGetOrCreate t R_glfw_window, WindowShow t]\<rparr>) of
        None \<Rightarrow> None
      | Some exited \<Rightarrow>
          Some (exited\<lparr>references := (references exited)
                   ((t, R_glfw_window) := references exited (t, R_glfw_window) - 2),
                 trace := trace exited @
                   [PerThreadRemoveReference t R_glfw_window,
                    PerThreadRemoveReference t R_glfw_window]\<rparr>))"
  by (simp add: bootable_game_park_thread_copy_def Let_def registry_defs make_current_def
        glfwMakeContextCurrent_def emit_def split: option.splits)

text \<open>
  C6. As stated the claim fails: on leaving the frame loop the worker's \<^verbatim>\<open>park_thread\<close>
  calls \<^verbatim>\<open>remove_reference\<close> for the window utility twice, not once.
\<close>

theorem park_thread_releases_window_exactly_once_counterexample:
  "map_option (releases 1 R_glfw_window)
     (bootable_game_park_thread 1 \<lparr>game_context = \<lparr>pointer = Some 5\<rparr>\<rparr> [(False, 0), (True, 0)] initial) = Some 2 \<and>
   map_option (releases 1 R_glfw_window)
     (bootable_game_park_thread 1 \<lparr>game_context = \<lparr>pointer = Some 5\<rparr>\<rparr> [(False, 0), (True, 0)] initial) \<noteq> Some 1"
  by (simp add: bootable_game_park_thread_def Let_def releases_def initial_def make_current_def
        registry_defs native_defs GL_NO_ERROR_def)

text \<open>
  C6, amended. Whenever the worker's \<^verbatim>\<open>park_thread\<close> returns (either definition of it), its
  trace is: the calls before the loop, among them two \<^verbatim>\<open>get_or_create\<close> for the window
  utility (one binds \<^verbatim>\<open>window\<close>, one precedes \<^verbatim>\<open>show()\<close>); the frames, which make no
  registry call; the loop test that reads the close flag; and then, as the last two calls,
  two \<^verbatim>\<open>remove_reference\<close> for the window utility. That is one release per acquisition:
  the registry's reference count for the window utility is at return what it was at entry
  (the context's count is one higher: it is acquired once and not released here).
\<close>

theorem park_thread_releases_window_once_per_acquisition:
  "(bootable_game_park_thread t this frames st = Some s \<longrightarrow>
      (\<exists>loop_events.
         trace s = trace st @
         [Log Info ''Branched primary application thread for graphical context'' None,
          PerThreadSet t R_glfw_context, PerThreadGetOrCreate t R_glfw_context,
          GlfwMakeContextCurrent t (pointer (game_context this)),
          Log Info ''Initializing additional window and user input devices . . .'' None,
          PerThreadGetOrCreate t R_glfw_window,
          Log Debug ''Successfully initialized window utilities'' None,
          Log Debug ''Successfully initialized keyboard utilities'' None,
          Log Debug ''Successfully initialized mouse utilities'' None,
          Log Info ''Invoking application initialization section . . .'' None,
          TempStart t, PerThreadGetOrCreate t R_glfw_window, WindowShow t, InitTimeUpdate,
          Log Info ''Initialization successfully completed!'' None] @
           loop_events @
           [GlfwWindowShouldClose (pointer (game_context this)),
            PerThreadRemoveReference t R_glfw_window, PerThreadRemoveReference t R_glfw_window] \<and>
         filter is_registry_call loop_events = []) \<and>
      references s (t, R_glfw_window) = references st (t, R_glfw_window) \<and>
      references s = (references st)((t, R_glfw_context) := references st (t, R_glfw_context) + 1) \<and>
      registry_calls s = registry_calls st @
         [PerThreadSet t R_glfw_context, PerThreadGetOrCreate t R_glfw_context,
          PerThreadGetOrCreate t R_glfw_window, PerThreadGetOrCreate t R_glfw_window,
          PerThreadRemoveReference t R_glfw_window, PerThreadRemoveReference t R_glfw_window]) \<and>
   (bootable_game_park_thread_copy t this closes st = Some s' \<longrightarrow>
      (\<exists>loop_events.
         trace s' = trace st @
         [PerThreadSet t R_glfw_context, PerThreadGetOrCreate t R_glfw_context,
          GlfwMakeContextCurrent t (pointer (game_context this)),
          PerThreadGetOrCreate t R_glfw_window, TempStart t,
          PerThreadGetOrCreate t R_glfw_window, WindowShow t] @
           loop_events @
           [GlfwWindowShouldClose (pointer (game_context this)),
            PerThreadRemoveReference t R_glfw_window, PerThreadRemoveReference t R_glfw_window] \<and>
         filter is_registry_call loop_events = []) \<and>
      references s' (t, R_glfw_window) = references st (t, R_glfw_window) \<and>
      references s' = (references st)((t, R_glfw_context) := references st (t, R_glfw_context) + 1) \<and>
      registry_calls s' = registry_calls st @
         [PerThreadSet t R_glfw_context, PerThreadGetOrCreate t R_glfw_context,
          PerThreadGetOrCreate t R_glfw_window, PerThreadGetOrCreate t R_glfw_window,
          PerThreadRemoveReference t R_glfw_window, PerThreadRemoveReference t R_glfw_window])"
proof (rule conjI; rule impI)
  assume ret: "bootable_game_park_thread t this frames st = Some s"
  from ret obtain exited where loop: "frame_loop t this frames
        (st\<lparr>current_context := (current_context st)(t := pointer (game_context this)),
            references := (references st)
              ((t, R_glfw_context) := references st (t, R_glfw_context) + 1,
               (t, R_glfw_window) := 2 + references st (t, R_glfw_window)),
            trace := trace st @
         [Log Info ''Branched primary application thread for graphical context'' None,
          PerThreadSet t R_glfw_context, PerThreadGetOrCreate t R_glfw_context,
          GlfwMakeContextCurrent t (pointer (game_context this)),
          Log Info ''Initializing additional window and user input devices . . .'' None,
          PerThreadGetOrCreate t R_glfw_window,
          Log Debug ''Successfully initialized window utilities'' None,
          Log Debug ''Successfully initialized keyboard utilities'' None,
          Log Debug ''Successfully initialized mouse utilities'' None,
          Log Info ''Invoking application initialization section . . .'' None,
          TempStart t, PerThreadGetOrCreate t R_glfw_window, WindowShow t, InitTimeUpdate,
          Log Info ''Initialization successfully completed!'' None]\<rparr>) = Some exited"
    and s: "s = exited\<lparr>references := (references exited)
                   ((t, R_glfw_window) := references exited (t, R_glfw_window) - 2),
                 trace := trace exited @
                   [PerThreadRemoveReference t R_glfw_window,
                    PerThreadRemoveReference t R_glfw_window]\<rparr>"
    by (auto simp: park_thread_unfold split: option.splits)
  from frame_loop_closed [OF loop] obtain evs where
    exited: "exited = st\<lparr>current_context := (current_context st)(t := pointer (game_context this)),
            references := (references st)
              ((t, R_glfw_context) := references st (t, R_glfw_context) + 1,
               (t, R_glfw_window) := 2 + references st (t, R_glfw_window)),
            trace := trace st @
         [Log Info ''Branched primary application thread for graphical context'' None,
          PerThreadSet t R_glfw_context, PerThreadGetOrCreate t R_glfw_context,
          GlfwMakeContextCurrent t (pointer (game_context this)),
          Log Info ''Initializing additional window and user input devices . . .'' None,
          PerThreadGetOrCreate t R_glfw_window,
          Log Debug ''Successfully initialized window utilities'' None,
          Log Debug ''Successfully initialized keyboard utilities'' None,
          Log Debug ''Successfully initialized mouse utilities'' None,
          Log Info ''Invoking application initialization section . . .'' None,
          TempStart t, PerThreadGetOrCreate t R_glfw_window, WindowShow t, InitTimeUpdate,
          Log Info ''Initialization successfully completed!'' None] @ evs @ [GlfwWindowShouldClose (pointer (game_context this))]\<rparr>"
    and none: "filter is_registry_call evs = []"
    by auto
  have tr: "trace s = trace st @
         [Log Info ''Branched primary application thread for graphical context'' None,
          PerThreadSet t R_glfw_context, PerThreadGetOrCreate t R_glfw_context,
          GlfwMakeContextCurrent t (pointer (game_context this)),
          Log Info ''Initializing additional window and user input devices . . .'' None,
          PerThreadGetOrCreate t R_glfw_window,
          Log Debug ''Successfully initialized window utilities'' None,
          Log Debug ''Successfully initialized keyboard utilities'' None,
          Log Debug ''Successfully initialized mouse utilities'' None,
          Log Info ''Invoking application initialization section . . .'' None,
          TempStart t, PerThreadGetOrCreate t R_glfw_window, WindowShow t, InitTimeUpdate,
          Log Info ''Initialization successfully completed!'' None] @
           evs @
           [GlfwWindowShouldClose (pointer (game_context this)),
            PerThreadRemoveReference t R_glfw_window, PerThreadRemoveReference t R_glfw_window]"
    using s exited by simp
  have refs: "references s =
      (references st)((t, R_glfw_context) := references st (t, R_glfw_context) + 1)"
    using s exited by (auto simp: fun_eq_iff)
  have calls: "registry_calls s = registry_calls st @
         [PerThreadSet t R_glfw_context, PerThreadGetOrCreate t R_glfw_context,
          PerThreadGetOrCreate t R_glfw_window, PerThreadGetOrCreate t R_glfw_window,
          PerThreadRemoveReference t R_glfw_window, PerThreadRemoveReference t R_glfw_window]"
    using tr none by (simp add: registry_calls_def)
  show "(\<exists>loop_events.
           trace s = trace st @
           [Log Info ''Branched primary application thread for graphical context'' None,
            PerThreadSet t R_glfw_context, PerThreadGetOrCreate t R_glfw_context,
            GlfwMakeContextCurrent t (pointer (game_context this)),
            Log Info ''Initializing additional window and user input devices . . .'' None,
            PerThreadGetOrCreate t R_glfw_window,
            Log Debug ''Successfully initialized window utilities'' None,
            Log Debug ''Successfully initialized keyboard utilities'' None,
            Log Debug ''Successfully initialized mouse utilities'' None,
            Log Info ''Invoking application initialization section . . .'' None,
            TempStart t, PerThreadGetOrCreate t R_glfw_window, WindowShow t, InitTimeUpdate,
            Log Info ''Initialization successfully completed!'' None] @
             loop_events @
             [GlfwWindowShouldClose (pointer (game_context this)),
              PerThreadRemoveReference t R_glfw_window, PerThreadRemoveReference t R_glfw_window] \<and>
           filter is_registry_call loop_events = []) \<and>
        references s (t, R_glfw_window) = references st (t, R_glfw_window) \<and>
        references s = (references st)((t, R_glfw_context) := references st (t, R_glfw_context) + 1) \<and>
        registry_calls s = registry_calls st @
           [PerThreadSet t R_glfw_context, PerThreadGetOrCreate t R_glfw_context,
            PerThreadGetOrCreate t R_glfw_window, PerThreadGetOrCreate t R_glfw_window,
            PerThreadRemoveReference t R_glfw_window, PerThreadRemoveReference t R_glfw_window]"
    using tr none refs calls by (intro conjI exI [of _ evs]) simp_all
next
  assume ret: "bootable_game_park_thread_copy t this closes st = Some s'"
  from ret obtain exited where loop: "frame_loop_copy t this closes
        (st\<lparr>current_context := (current_context st)(t := pointer (game_context this)),
            references := (references st)
              ((t, R_glfw_context) := references st (t, R_glfw_context) + 1,
               (t, R_glfw_window) := 2 + references st (t, R_glfw_window)),
            trace := trace st @
         [PerThreadSet t R_glfw_context, PerThreadGetOrCreate t R_glfw_context,
          GlfwMakeContextCurrent t (pointer (game_context this)),
          PerThreadGetOrCreate t R_glfw_window, TempStart t,
          PerThreadGetOrCreate t R_glfw_window, WindowShow t]\<rparr>) = Some exited"
    and s: "s' = exited\<lparr>references := (references exited)
                   ((t, R_glfw_window) := references exited (t, R_glfw_window) - 2),
                 trace := trace exited @
                   [PerThreadRemoveReference t R_glfw_window,
                    PerThreadRemoveReference t R_glfw_window]\<rparr>"
    by (auto simp: park_thread_copy_unfold split: option.splits)
  from frame_loop_copy_closed [OF loop] obtain evs where
    exited: "exited = st\<lparr>current_context := (current_context st)(t := pointer (game_context this)),
            references := (references st)
              ((t, R_glfw_context) := references st (t, R_glfw_context) + 1,
               (t, R_glfw_window) := 2 + references st (t, R_glfw_window)),
            trace := trace st @
         [PerThreadSet t R_glfw_context, PerThreadGetOrCreate t R_glfw_context,
          GlfwMakeContextCurrent t (pointer (game_context this)),
          PerThreadGetOrCreate t R_glfw_window, TempStart t,
          PerThreadGetOrCreate t R_glfw_window, WindowShow t] @ evs @ [GlfwWindowShouldClose (pointer (game_context this))]\<rparr>"
    and none: "filter is_registry_call evs = []"
    by auto
  have tr: "trace s' = trace st @
         [PerThreadSet t R_glfw_context, PerThreadGetOrCreate t R_glfw_context,
          GlfwMakeContextCurrent t (pointer (game_context this)),
          PerThreadGetOrCreate t R_glfw_window, TempStart t,
          PerThreadGetOrCreate t R_glfw_window, WindowShow t] @
           evs @
           [GlfwWindowShouldClose (pointer (game_context this)),
            PerThreadRemoveReference t R_glfw_window, PerThreadRemoveReference t R_glfw_window]"
    using s exited by simp
  have refs: "references s' =
      (references st)((t, R_glfw_context) := references st (t, R_glfw_context) + 1)"
    using s exited by (auto simp: fun_eq_iff)
  have calls: "registry_calls s' = registry_calls st @
         [PerThreadSet t R_glfw_context, PerThreadGetOrCreate t R_glfw_context,
          PerThreadGetOrCreate t R_glfw_window, PerThreadGetOrCreate t R_glfw_window,
          PerThreadRemoveReference t R_glfw_window, PerThreadRemoveReference t R_glfw_window]"
    using tr none by (simp add: registry_calls_def)
  show "(\<exists>loop_events.
           trace s' = trace st @
           [PerThreadSet t R_glfw_context, PerThreadGetOrCreate t R_glfw_context,
            GlfwMakeContextCurrent t (pointer (game_context this)),
            PerThreadGetOrCreate t R_glfw_window, TempStart t,
            PerThreadGetOrCreate t R_glfw_window, WindowShow t] @
             loop_events @
             [GlfwWindowShouldClose (pointer (game_context this)),
              PerThreadRemoveReference t R_glfw_window, PerThreadRemoveReference t R_glfw_window] \<and>
           filter is_registry_call loop_events = []) \<and>
        references s' (t, R_glfw_window) = references st (t, R_glfw_window) \<and>
        references s' = (references st)((t, R_glfw_context) := references st (t, R_glfw_context) + 1) \<and>
        registry_calls s' = registry_calls st @
           [PerThreadSet t R_glfw_context, PerThreadGetOrCreate t R_glfw_context,
            PerThreadGetOrCreate t R_glfw_window, PerThreadGetOrCreate t R_glfw_window,
            PerThreadRemoveReference t R_glfw_window, PerThreadRemoveReference t R_glfw_window]"
    using tr none refs calls by (intro conjI exI [of _ evs]) simp_all
qed

theorem park_thread_releases_window_once_per_acquisition_witness:
  "map_option trace
     (bootable_game_park_thread 1 \<lparr>game_context = \<lparr>pointer = Some 5\<rparr>\<rparr> [(False, 0), (True, 0)] initial) =
     Some ([Log Info ''Branched primary application thread for graphical context'' None,
          PerThreadSet 1 R_glfw_context, PerThreadGetOrCreate 1 R_glfw_context,
          GlfwMakeContextCurrent 1 (Some 5),
          Log Info ''Initializing additional window and user input devices . . .'' None,
          PerThreadGetOrCreate 1 R_glfw_window,
          Log Debug ''Successfully initialized window utilities'' None,
          Log Debug ''Successfully initialized keyboard utilities'' None,
          Log Debug ''Successfully initialized mouse utilities'' None,
          Log Info ''Invoking application initialization section . . .'' None,
          TempStart 1, PerThreadGetOrCreate 1 R_glfw_window, WindowShow 1, InitTimeUpdate,
          Log Info ''Initialization successfully completed!'' None] @
         [GlfwWindowShouldClose (Some 5), TempUpdate 1, GlGetError 1, WindowSwapBuffers 1] @
         [GlfwWindowShouldClose (Some 5),
          PerThreadRemoveReference 1 R_glfw_window, PerThreadRemoveReference 1 R_glfw_window]) \<and>
   map_option references
     (bootable_game_park_thread 1 \<lparr>game_context = \<lparr>pointer = Some 5\<rparr>\<rparr> [(False, 0), (True, 0)] initial) =
     Some ((\<lambda>k. 0)((1, R_glfw_context) := 1)) \<and>
   map_option references
     (bootable_game_park_thread_copy 1 \<lparr>game_context = \<lparr>pointer = Some 5\<rparr>\<rparr> [False, True] initial) =
     Some ((\<lambda>k. 0)((1, R_glfw_context) := 1))"
proof -
  obtain s where s: "bootable_game_park_thread 1 \<lparr>game_context = \<lparr>pointer = Some 5\<rparr>\<rparr>
      [(False, 0), (True, 0)] initial = Some s"
    by (simp add: bootable_game_park_thread_def Let_def)
  obtain s' where s': "bootable_game_park_thread_copy 1 \<lparr>game_context = \<lparr>pointer = Some 5\<rparr>\<rparr>
      [False, True] initial = Some s'"
    by (simp add: bootable_game_park_thread_copy_def Let_def)
  have tr: "trace s =
         [Log Info ''Branched primary application thread for graphical context'' None,
          PerThreadSet 1 R_glfw_context, PerThreadGetOrCreate 1 R_glfw_context,
          GlfwMakeContextCurrent 1 (Some 5),
          Log Info ''Initializing additional window and user input devices . . .'' None,
          PerThreadGetOrCreate 1 R_glfw_window,
          Log Debug ''Successfully initialized window utilities'' None,
          Log Debug ''Successfully initialized keyboard utilities'' None,
          Log Debug ''Successfully initialized mouse utilities'' None,
          Log Info ''Invoking application initialization section . . .'' None,
          TempStart 1, PerThreadGetOrCreate 1 R_glfw_window, WindowShow 1, InitTimeUpdate,
          Log Info ''Initialization successfully completed!'' None] @
         [GlfwWindowShouldClose (Some 5), TempUpdate 1, GlGetError 1, WindowSwapBuffers 1] @
         [GlfwWindowShouldClose (Some 5),
          PerThreadRemoveReference 1 R_glfw_window, PerThreadRemoveReference 1 R_glfw_window]"
    using s
    by (auto simp: bootable_game_park_thread_def Let_def registry_defs make_current_def
          native_defs initial_def GL_NO_ERROR_def)
  have "references initial = (\<lambda>k. 0)" by (simp add: initial_def)
  with park_thread_releases_window_once_per_acquisition
    [of 1 "\<lparr>game_context = \<lparr>pointer = Some 5\<rparr>\<rparr>" "[(False, 0), (True, 0)]" initial s
        "[False, True]" s'] s s' tr
  show ?thesis by simp
qed

text \<open>
  C8. A frame whose update callback leaves a non-zero error code does not end the loop:
  the code is logged as an error, the buffers are swapped, and the loop goes on with the
  next frame exactly as it would from that state.
\<close>

theorem graphics_error_is_logged_and_loop_continues:
  assumes "error \<noteq> GL_NO_ERROR"
  shows "frame_loop t this ((False, error) # frames) st =
     frame_loop t this frames
       (st\<lparr>trace := trace st @
          [GlfwWindowShouldClose (pointer (game_context this)), TempUpdate t, GlGetError t,
           Log Error ''An OpenGL error has occurred; context error flag is set to '' (Some error),
           WindowSwapBuffers t]\<rparr>)"
  using assms by (simp add: Let_def emit_def)

theorem graphics_error_is_logged_and_loop_continues_witness:
  "(1282::int) \<noteq> GL_NO_ERROR \<and>
   frame_loop 1 \<lparr>game_context = \<lparr>pointer = Some 5\<rparr>\<rparr> [(False, 1282), (True, 0)] initial =
     Some (initial\<lparr>trace :=
          [GlfwWindowShouldClose (Some 5), TempUpdate 1, GlGetError 1,
           Log Error ''An OpenGL error has occurred; context error flag is set to '' (Some 1282),
           WindowSwapBuffers 1, GlfwWindowShouldClose (Some 5)]\<rparr>)"
proof -
  have h: "(1282::int) \<noteq> GL_NO_ERROR" by (simp add: GL_NO_ERROR_def)
  show ?thesis
    using h graphics_error_is_logged_and_loop_continues [OF h, of 1 "\<lparr>game_context = \<lparr>pointer = Some 5\<rparr>\<rparr>" "[(True, 0)]" initial]
    by (simp add: emit_def initial_def)
qed

end
